theory Spec2Isabelle
  imports
    Complex_Main
    "HOL-Library.AList"
    "HOL-Library.Char_ord"
    "HOL-Library.List_Lexorder"
    "HOL-Library.Multiset"
begin

section \<open>Reddit lead extraction (scripts/get-reddit-leads.py)\<close>

text \<open>
  A shallow embedding of the script that reads the execution history of a workflow
  engine from a relational store, finds lead records in each execution's JSON payload,
  and deduplicates, sorts, paginates and reshapes them.

  Conventions of the embedding.
  \<^item> A Python value produced by \<^verbatim>\<open>json.loads\<close> is a \<open>json\<close>. A float is the rational it
    denotes: the script only tests numbers for truth and equality and passes them on
    (the non-finite floats that \<^verbatim>\<open>json.loads\<close> also accepts are left out).
  \<^item> A \<^verbatim>\<open>str\<close> is a \<open>string\<close>; the character classes of the script's patterns
    (\<^verbatim>\<open>\s\<close>, \<^verbatim>\<open>\w\<close>, \<^verbatim>\<open>\d\<close>, \<^verbatim>\<open>isdigit\<close>) are the ones of ASCII text.
  \<^item> A \<^verbatim>\<open>dict\<close> is an association list in insertion order, read with \<open>map_of\<close> and
    written with \<open>AList.update\<close> (replace in place, or append a new key at the end).
  \<^item> An exception is a value of \<open>error\<close>; a call that may not return is an \<open>option\<close>.
\<close>

subsection \<open>Values\<close>

datatype json =
    JNull
  | JBool bool
  | JInt int
  | JFloat rat
  | JStr string
  | JArr "json list"
  | JObj "(string \<times> json) list"

type_synonym dict = "(string \<times> json) list"

datatype error =
    TypeError
  | AttributeError
  | ValueError
  | RecursionError
  | UnicodeDecodeError
  | JSONDecodeError

text \<open>Python's truth value of a JSON value (\<^verbatim>\<open>if x\<close>, \<^verbatim>\<open>x and ...\<close>).\<close>

fun truthy :: "json \<Rightarrow> bool" where
  "truthy JNull = False"
| "truthy (JBool b) = b"
| "truthy (JInt i) = (i \<noteq> 0)"
| "truthy (JFloat r) = (r \<noteq> 0)"
| "truthy (JStr s) = (s \<noteq> [])"
| "truthy (JArr xs) = (xs \<noteq> [])"
| "truthy (JObj d) = (d \<noteq> [])"

text \<open>\<^verbatim>\<open>k in d\<close> and \<^verbatim>\<open>d.get(k, default)\<close> for a dict \<open>d\<close>.\<close>

definition has_key :: "dict \<Rightarrow> string \<Rightarrow> bool" where
  "has_key d k = (map_of d k \<noteq> None)"

definition dict_get :: "dict \<Rightarrow> string \<Rightarrow> json \<Rightarrow> json" where
  "dict_get d k dflt = (case map_of d k of None \<Rightarrow> dflt | Some v \<Rightarrow> v)"

subsection \<open>Character classes and pattern substitution\<close>

definition is_digit_char :: "char \<Rightarrow> bool" where
  "is_digit_char c = (48 \<le> (of_char c :: nat) \<and> (of_char c :: nat) \<le> 57)"

definition is_space :: "char \<Rightarrow> bool" where
  "is_space c =
     (let n = (of_char c :: nat)
      in n = 32 \<or> (9 \<le> n \<and> n \<le> 13) \<or> (28 \<le> n \<and> n \<le> 31))"

definition is_alnum :: "char \<Rightarrow> bool" where
  "is_alnum c =
     (let n = (of_char c :: nat)
      in (48 \<le> n \<and> n \<le> 57) \<or> (65 \<le> n \<and> n \<le> 90) \<or> (97 \<le> n \<and> n \<le> 122))"

definition is_word :: "char \<Rightarrow> bool" where
  "is_word c = (is_alnum c \<or> c = CHR ''_'')"

definition entity_char :: "char \<Rightarrow> bool" where
  "entity_char c = (is_alnum c \<or> c = CHR ''#'')"

text \<open>\<open>strip_prefix p s\<close> is what follows \<open>p\<close> in \<open>s\<close>, when \<open>s\<close> starts with \<open>p\<close>.\<close>

fun strip_prefix :: "string \<Rightarrow> string \<Rightarrow> string option" where
  "strip_prefix [] s = Some s"
| "strip_prefix (p # ps) [] = None"
| "strip_prefix (p # ps) (c # cs) = (if p = c then strip_prefix ps cs else None)"

definition run_length :: "(char \<Rightarrow> bool) \<Rightarrow> string \<Rightarrow> nat" where
  "run_length p s = length (takeWhile p s)"

text \<open>
  A pattern of the script is a \<open>matcher\<close>: given the character before the position (for
  \<^verbatim>\<open>\b\<close>) and the text from the position on, the length of the match that starts there,
  if there is one. None of the script's patterns matches the empty string.
\<close>

type_synonym matcher = "char option \<Rightarrow> string \<Rightarrow> nat option"

text \<open>A literal pattern such as \<^verbatim>\<open>/div\<close> or \<^verbatim>\<open>\[link\]\<close>.\<close>

definition m_lit :: "string \<Rightarrow> matcher" where
  "m_lit lit prev s = (case strip_prefix lit s of None \<Rightarrow> None | Some _ \<Rightarrow> Some (length lit))"

text \<open>
  \<^verbatim>\<open>!--.*?--\<close>: after \<^verbatim>\<open>!--\<close>, the shortest run of characters other than a newline
  that is followed by \<^verbatim>\<open>--\<close>.
\<close>

fun find_dashes :: "string \<Rightarrow> nat option" where
  "find_dashes [] = None"
| "find_dashes (c # cs) =
     (if strip_prefix ''--'' (c # cs) \<noteq> None then Some 0
      else if c = CHR 0x0A then None
      else map_option Suc (find_dashes cs))"

definition m_comment :: matcher where
  "m_comment prev s =
     (case strip_prefix ''!--'' s of
        None \<Rightarrow> None
      | Some rest \<Rightarrow> map_option (\<lambda>k. 3 + k + 2) (find_dashes rest))"

text \<open>\<^verbatim>\<open><[^>]*>\<close>: from \<^verbatim>\<open><\<close> to the next \<^verbatim>\<open>>\<close>, newlines included.\<close>

definition m_tag :: matcher where
  "m_tag prev s =
     (case s of
        [] \<Rightarrow> None
      | c # cs \<Rightarrow>
          if c = CHR ''<'' then
            (let k = run_length (\<lambda>x. x \<noteq> CHR ''>'') cs
             in if k < length cs then Some (1 + k + 1) else None)
          else None)"

text \<open>
  \<^verbatim>\<open>div class=\s*\w+\<close>, \<^verbatim>\<open>span class=\s*\w+\<close> and \<^verbatim>\<open>a href=\s*[^\s>]+\<close>: a literal, any
  white space, and a non-empty run of a class that has no white space in it (so the
  greedy runs never give a character back).
\<close>

definition m_attr :: "string \<Rightarrow> (char \<Rightarrow> bool) \<Rightarrow> matcher" where
  "m_attr lit cls prev s =
     (case strip_prefix lit s of
        None \<Rightarrow> None
      | Some rest \<Rightarrow>
          (let a = run_length is_space rest; b = run_length cls (drop a rest)
           in if 0 < b then Some (length lit + a + b) else None))"

text \<open>\<^verbatim>\<open>\bp\b\<close>, \<^verbatim>\<open>\bmd\b\<close>, \<^verbatim>\<open>\bbr\b\<close>: a word with no word character on either side.\<close>

definition m_word :: "string \<Rightarrow> matcher" where
  "m_word w prev s =
     (if (case prev of None \<Rightarrow> True | Some c \<Rightarrow> \<not> is_word c) then
        (case strip_prefix w s of
           None \<Rightarrow> None
         | Some rest \<Rightarrow>
             (case rest of
                [] \<Rightarrow> Some (length w)
              | c # _ \<Rightarrow> if is_word c then None else Some (length w)))
      else None)"

text \<open>
  \<^verbatim>\<open>&[a-zA-Z0-9#]+;\<close> and \<^verbatim>\<open>#\d+;\<close>: an opening character, a non-empty run of a class
  and a semicolon (which is in neither class).
\<close>

definition m_delim :: "char \<Rightarrow> (char \<Rightarrow> bool) \<Rightarrow> matcher" where
  "m_delim opening cls prev s =
     (case s of
        [] \<Rightarrow> None
      | c # cs \<Rightarrow>
          if c = opening then
            (let k = run_length cls cs
             in if 0 < k \<and> strip_prefix '';'' (drop k cs) \<noteq> None then Some (1 + k + 1)
                else None)
          else None)"

text \<open>\<^verbatim>\<open>\s+\<close>.\<close>

definition m_spaces :: matcher where
  "m_spaces prev s = (let k = run_length is_space s in if 0 < k then Some k else None)"

text \<open>
  \<^verbatim>\<open>re.sub(pattern, repl, s)\<close>: scan from the left; where the pattern matches, write
  \<open>repl\<close> and go on after the match; elsewhere copy the character. \<open>skip\<close> counts the
  characters of the current match that are still to be passed over.
\<close>

fun sub_from :: "matcher \<Rightarrow> string \<Rightarrow> char option \<Rightarrow> nat \<Rightarrow> string \<Rightarrow> string" where
  "sub_from m repl prev skip [] = []"
| "sub_from m repl prev (Suc skip) (c # cs) = sub_from m repl (Some c) skip cs"
| "sub_from m repl prev 0 (c # cs) =
     (case m prev (c # cs) of
        Some (Suc n) \<Rightarrow> repl @ sub_from m repl (Some c) n cs
      | _ \<Rightarrow> c # sub_from m repl (Some c) 0 cs)"

definition re_sub :: "matcher \<Rightarrow> string \<Rightarrow> string \<Rightarrow> string" where
  "re_sub m repl s = sub_from m repl None 0 s"

text \<open>\<^verbatim>\<open>s.strip()\<close> and \<^verbatim>\<open>s.replace(old, new)\<close> (for a non-empty \<open>old\<close>).\<close>

definition strip :: "string \<Rightarrow> string" where
  "strip s = rev (dropWhile is_space (rev (dropWhile is_space s)))"

definition str_replace :: "string \<Rightarrow> string \<Rightarrow> string \<Rightarrow> string" where
  "str_replace old new s = re_sub (m_lit old) new s"

subsection \<open>The text cleaner\<close>

text \<open>The eighteen substitutions of \<^verbatim>\<open>clean_html_content\<close>, in the script's order.\<close>

definition clean_text :: "string \<Rightarrow> string" where
  "clean_text content0 =
     (let content = re_sub m_comment [] content0;
          content = re_sub m_tag [] content;
          content = re_sub (m_attr ''div class='' is_word) [] content;
          content = re_sub (m_attr ''span class='' is_word) [] content;
          content = re_sub (m_attr ''a href='' (\<lambda>c. \<not> is_space c \<and> c \<noteq> CHR ''>'')) [] content;
          content = re_sub (m_lit ''/div'') [] content;
          content = re_sub (m_lit ''/span'') [] content;
          content = re_sub (m_lit ''/a'') [] content;
          content = re_sub (m_lit ''/p'') [] content;
          content = re_sub (m_word ''p'') [] content;
          content = re_sub (m_word ''md'') [] content;
          content = re_sub (m_word ''br'') [] content;
          content = re_sub (m_delim (CHR ''&'') entity_char) '' '' content;
          content = re_sub (m_delim (CHR ''#'') is_digit_char) [] content;
          content = re_sub (m_lit ''submitted by'') [] content;
          content = re_sub (m_lit ''[link]'') [] content;
          content = re_sub (m_lit ''[comments]'') [] content;
          content = re_sub m_spaces '' '' content
      in strip content)"

text \<open>
  \<^verbatim>\<open>clean_html_content(content)\<close>: the empty string for a false value (\<^verbatim>\<open>None\<close>, the empty
  string), the cleaned text for a string; \<^verbatim>\<open>re.sub\<close> raises \<^verbatim>\<open>TypeError\<close> on any other
  true value.
\<close>

definition clean_html_content :: "json \<Rightarrow> error + string" where
  "clean_html_content content =
     (if \<not> truthy content then Inr []
      else (case content of JStr s \<Rightarrow> Inr (clean_text s) | _ \<Rightarrow> Inl TypeError))"

subsection \<open>The deindexer\<close>

text \<open>\<^verbatim>\<open>val.isdigit()\<close>, and the value of a string of decimal digits.\<close>

definition isdigit :: "string \<Rightarrow> bool" where
  "isdigit s = (s \<noteq> [] \<and> list_all is_digit_char s)"

definition int_of_str :: "string \<Rightarrow> nat" where
  "int_of_str s = foldl (\<lambda>acc c. 10 * acc + (of_char c - 48)) 0 s"

text \<open>
  \<^verbatim>\<open>int(val)\<close> for a string of decimal digits: the interpreter refuses to convert a
  string of more than \<^verbatim>\<open>sys.get_int_max_str_digits()\<close> characters (4300 unless it is
  reconfigured) and raises \<^verbatim>\<open>ValueError\<close>; leading zeros count.
\<close>

definition int_max_str_digits :: nat where
  "int_max_str_digits = 4300"

definition py_int :: "string \<Rightarrow> error + nat" where
  "py_int s = (if int_max_str_digits < length s then Inl ValueError else Inr (int_of_str s))"

text \<open>
  A comprehension over calls that may raise or not return, evaluated from the left: the
  list of the results when every call returns one, the first exception otherwise, and
  nothing when a call before the first exception does not return.
\<close>

fun map_results :: "('a \<Rightarrow> (error + 'b) option) \<Rightarrow> 'a list \<Rightarrow> (error + 'b list) option" where
  "map_results f [] = Some (Inr [])"
| "map_results f (x # xs) =
     Option.bind (f x)
       (\<lambda>r. case r of
              Inl e \<Rightarrow> Some (Inl e)
            | Inr y \<Rightarrow> Option.bind (map_results f xs) (\<lambda>rs. Some (map_sum id ((#) y) rs)))"

lemma map_results_mono [partial_function_mono]:
  assumes "\<And>x. mono_option (\<lambda>f. g f x)"
  shows "mono_option (\<lambda>f. map_results (g f) xs)"
proof (induction xs)
  case Nil
  show ?case by (simp add: option.const_mono)
next
  case (Cons x xs)
  have rest: "mono_option (\<lambda>f. case r of
              Inl e \<Rightarrow> Some (Inl e)
            | Inr y \<Rightarrow> Option.bind (map_results (g f) xs) (\<lambda>rs. Some (map_sum id ((#) y) rs)))"
    for r
  proof (cases r)
    case (Inl e)
    then show ?thesis by (simp add: option.const_mono)
  next
    case (Inr y)
    then show ?thesis by (simp, intro partial_function_mono Cons)
  qed
  show ?case
    unfolding map_results.simps
    by (intro partial_function_mono assms rest)
qed

text \<open>
  \<^verbatim>\<open>deref(val, data)\<close>. The recursion has no cycle guard, so it is a partial function:
  \<open>None\<close> is the call that does not return (in Python the recursion ends in a
  \<^verbatim>\<open>RecursionError\<close>; the depth at which the interpreter gives up is not modelled),
  \<open>Some (Inl e)\<close> the call that raises \<open>e\<close>, \<open>Some (Inr v)\<close> the call that returns \<open>v\<close>.
  A string of digits that is out of range falls through to \<^verbatim>\<open>return val\<close>.
\<close>

partial_function (option) deref :: "json \<Rightarrow> json list \<Rightarrow> (error + json) option" where
  "deref val data =
     (case val of
        JStr s \<Rightarrow>
          if isdigit s then
            (case py_int s of
               Inl e \<Rightarrow> Some (Inl e)
             | Inr idx \<Rightarrow>
                 if idx < length data then deref (data ! idx) data else Some (Inr val))
          else Some (Inr val)
      | JObj kvs \<Rightarrow>
          Option.bind
            (map_results
               (\<lambda>kv. Option.bind (deref (snd kv) data) (\<lambda>r. Some (map_sum id (Pair (fst kv)) r)))
               kvs)
            (\<lambda>r. Some (map_sum id JObj r))
      | JArr vs \<Rightarrow>
          Option.bind (map_results (\<lambda>v. deref v data) vs) (\<lambda>r. Some (map_sum id JArr r))
      | _ \<Rightarrow> Some (Inr val))"

declare deref.simps [code]

text \<open>
  The table entries a value refers to: its leaves that are strings of digits within the
  bounds of a table of \<open>n\<close> entries (keys of mappings are not references). Entry \<open>i\<close>
  refers to entry \<open>j\<close> when \<open>(j, i)\<close> is in \<open>ref_rel\<close>; a table is acyclic when no chain
  of references leads from an entry back to itself.
\<close>

fun refs :: "nat \<Rightarrow> json \<Rightarrow> nat list" where
  "refs n (JStr s) = (if isdigit s \<and> int_of_str s < n then [int_of_str s] else [])"
| "refs n (JArr vs) = concat (map (refs n) vs)"
| "refs n (JObj kvs) = concat (map (\<lambda>kv. refs n (snd kv)) kvs)"
| "refs n _ = []"

definition ref_rel :: "json list \<Rightarrow> (nat \<times> nat) set" where
  "ref_rel T = {(j, i). i < length T \<and> j \<in> set (refs (length T) (T ! i))}"

definition acyclic_table :: "json list \<Rightarrow> bool" where
  "acyclic_table T = acyclic (ref_rel T)"

text \<open>A value none of whose digit strings is too long for \<^verbatim>\<open>int\<close>.\<close>

fun short_indices :: "json \<Rightarrow> bool" where
  "short_indices (JStr s) = (isdigit s \<longrightarrow> length s \<le> int_max_str_digits)"
| "short_indices (JArr vs) = list_all short_indices vs"
| "short_indices (JObj kvs) = list_all (\<lambda>kv. short_indices (snd kv)) kvs"
| "short_indices _ = True"

subsection \<open>Branch A: the indexed array format\<close>

text \<open>
  \<^verbatim>\<open>extract_leads_from_execution(data)\<close>: every element of the table that is a mapping
  with the keys \<^verbatim>\<open>title\<close>, \<^verbatim>\<open>subreddit\<close> and \<^verbatim>\<open>link\<close>, deindexed against the whole table.
\<close>

definition looks_like_lead :: "json \<Rightarrow> bool" where
  "looks_like_lead item =
     (case item of
        JObj d \<Rightarrow> has_key d ''title'' \<and> has_key d ''subreddit'' \<and> has_key d ''link''
      | _ \<Rightarrow> False)"

definition extract_leads_from_execution :: "json list \<Rightarrow> (error + json list) option" where
  "extract_leads_from_execution data =
     map_results (\<lambda>item. deref item data) (filter looks_like_lead data)"

text \<open>\<^verbatim>\<open>x[k] = v\<close> for a string key: only a dict takes it, a list or a string raises.\<close>

definition set_item :: "json \<Rightarrow> string \<Rightarrow> json \<Rightarrow> error + json" where
  "set_item x k v = (case x of JObj d \<Rightarrow> Inr (JObj (AList.update k v d)) | _ \<Rightarrow> Inl TypeError)"

text \<open>
  The two assignments \<^verbatim>\<open>lead['foundAt'] = started_at\<close> and
  \<^verbatim>\<open>lead['executionId'] = exec_id\<close> that both branches make before appending a lead.
\<close>

definition tag_lead :: "json \<Rightarrow> json \<Rightarrow> json \<Rightarrow> error + dict" where
  "tag_lead started_at exec_id lead =
     (case set_item lead ''foundAt'' started_at of
        Inl e \<Rightarrow> Inl e
      | Inr lead1 \<Rightarrow>
          (case set_item lead1 ''executionId'' exec_id of
             Inl e \<Rightarrow> Inl e
           | Inr (JObj d) \<Rightarrow> Inr d
           | Inr _ \<Rightarrow> Inl TypeError))"

text \<open>
  The code appends to \<^verbatim>\<open>all_leads\<close> while it walks a payload, and an exception leaves
  what was appended in place. A walk therefore yields the leads it appended and the
  exception that ended it, if one did.
\<close>

type_synonym emitted = "dict list \<times> error option"

fun for_each :: "('a \<Rightarrow> emitted) \<Rightarrow> 'a list \<Rightarrow> emitted" where
  "for_each body [] = ([], None)"
| "for_each body (x # xs) =
     (case body x of
        (ls, Some e) \<Rightarrow> (ls, Some e)
      | (ls, None) \<Rightarrow> (case for_each body xs of (ls', r) \<Rightarrow> (ls @ ls', r)))"

definition emit_tagged :: "json \<Rightarrow> json \<Rightarrow> json \<Rightarrow> emitted" where
  "emit_tagged started_at exec_id lead =
     (case tag_lead started_at exec_id lead of Inl e \<Rightarrow> ([], Some e) | Inr d \<Rightarrow> ([d], None))"

text \<open>
  Lines 143 to 149: \<^verbatim>\<open>if data_array and isinstance(data_array, list)\<close>, extract, then tag
  and append each lead. \<open>data_array\<close> is \<open>None\<close> while the variable is still \<^verbatim>\<open>None\<close>.
\<close>

definition branch_a :: "json \<Rightarrow> json \<Rightarrow> json option \<Rightarrow> emitted" where
  "branch_a started_at exec_id data_array =
     (case data_array of
        Some (JArr xs) \<Rightarrow>
          if xs \<noteq> [] then
            (case extract_leads_from_execution xs of
               None \<Rightarrow> ([], Some RecursionError)
             | Some (Inl e) \<Rightarrow> ([], Some e)
             | Some (Inr leads) \<Rightarrow> for_each (emit_tagged started_at exec_id) leads)
          else ([], None)
      | _ \<Rightarrow> ([], None))"

subsection \<open>Branch B: the run-data format\<close>

text \<open>
  \<^verbatim>\<open>k in x\<close>, \<^verbatim>\<open>len(x)\<close> and iteration over \<open>x\<close>, for the types that have them: a key of
  a dict, an element of a list, a substring of a string.
\<close>

fun is_substr :: "string \<Rightarrow> string \<Rightarrow> bool" where
  "is_substr p [] = (p = [])"
| "is_substr p (c # cs) = (strip_prefix p (c # cs) \<noteq> None \<or> is_substr p cs)"

definition contains :: "string \<Rightarrow> json \<Rightarrow> error + bool" where
  "contains k x =
     (case x of
        JObj d \<Rightarrow> Inr (has_key d k)
      | JArr xs \<Rightarrow> Inr (JStr k \<in> set xs)
      | JStr s \<Rightarrow> Inr (is_substr k s)
      | _ \<Rightarrow> Inl TypeError)"

definition py_len :: "json \<Rightarrow> error + nat" where
  "py_len x =
     (case x of
        JObj d \<Rightarrow> Inr (length d)
      | JArr xs \<Rightarrow> Inr (length xs)
      | JStr s \<Rightarrow> Inr (length s)
      | _ \<Rightarrow> Inl TypeError)"

definition py_iter :: "json \<Rightarrow> error + json list" where
  "py_iter x =
     (case x of
        JObj d \<Rightarrow> Inr (map (\<lambda>kv. JStr (fst kv)) d)
      | JArr xs \<Rightarrow> Inr xs
      | JStr s \<Rightarrow> Inr (map (\<lambda>c. JStr [c]) s)
      | _ \<Rightarrow> Inl TypeError)"

text \<open>Lines 136 to 141: one item of an item list.\<close>

definition item_leads :: "json \<Rightarrow> json \<Rightarrow> json \<Rightarrow> emitted" where
  "item_leads started_at exec_id item =
     (case item of
        JObj d \<Rightarrow>
          (case map_of d ''json'' of
             None \<Rightarrow> ([], None)
           | Some lead_data \<Rightarrow>
               (case contains ''title'' lead_data of
                  Inl e \<Rightarrow> ([], Some e)
                | Inr False \<Rightarrow> ([], None)
                | Inr True \<Rightarrow>
                    (case contains ''link'' lead_data of
                       Inl e \<Rightarrow> ([], Some e)
                     | Inr False \<Rightarrow> ([], None)
                     | Inr True \<Rightarrow> emit_tagged started_at exec_id lead_data)))
      | _ \<Rightarrow> ([], None))"

text \<open>Lines 133 to 135: one element of \<^verbatim>\<open>main_data\<close>.\<close>

definition item_list_leads :: "json \<Rightarrow> json \<Rightarrow> json \<Rightarrow> emitted" where
  "item_list_leads started_at exec_id item_list =
     (case item_list of
        JArr items \<Rightarrow> for_each (item_leads started_at exec_id) items
      | _ \<Rightarrow> ([], None))"

text \<open>
  Lines 130 to 133: one run object. \<^verbatim>\<open>run['data'].get\<close> raises \<^verbatim>\<open>AttributeError\<close> unless
  \<^verbatim>\<open>run['data']\<close> is a dict, and \<^verbatim>\<open>len(main_data)\<close> raises on a true number.
\<close>

definition run_leads :: "json \<Rightarrow> json \<Rightarrow> json \<Rightarrow> emitted" where
  "run_leads started_at exec_id run =
     (case run of
        JObj r \<Rightarrow>
          (case map_of r ''data'' of
             None \<Rightarrow> ([], None)
           | Some (JObj d) \<Rightarrow>
               (let main_data = dict_get d ''main'' (JArr [JArr []])
                in if truthy main_data then
                     (case py_len main_data of
                        Inl e \<Rightarrow> ([], Some e)
                      | Inr n \<Rightarrow>
                          if 0 < n then
                            (case py_iter main_data of
                               Inl e \<Rightarrow> ([], Some e)
                             | Inr item_lists \<Rightarrow>
                                 for_each (item_list_leads started_at exec_id) item_lists)
                          else ([], None))
                   else ([], None))
           | Some _ \<Rightarrow> ([], Some AttributeError))
      | _ \<Rightarrow> ([], None))"

text \<open>Lines 128 and 129: the runs of one node.\<close>

definition node_leads :: "json \<Rightarrow> json \<Rightarrow> json \<Rightarrow> emitted" where
  "node_leads started_at exec_id node_data =
     (case node_data of
        JArr runs \<Rightarrow> for_each (run_leads started_at exec_id) runs
      | _ \<Rightarrow> ([], None))"

text \<open>
  Lines 123 to 141, from \<^verbatim>\<open>result = exec_data['resultData']\<close> on. \<^verbatim>\<open>run_data.items()\<close>
  raises \<^verbatim>\<open>AttributeError\<close> unless \<^verbatim>\<open>run_data\<close> is a dict.
\<close>

definition branch_b :: "json \<Rightarrow> json \<Rightarrow> json \<Rightarrow> emitted" where
  "branch_b started_at exec_id result =
     (case result of
        JObj res \<Rightarrow>
          (case map_of res ''runData'' of
             None \<Rightarrow> ([], None)
           | Some (JObj run_data) \<Rightarrow>
               for_each (\<lambda>kv. node_leads started_at exec_id (snd kv)) run_data
           | Some _ \<Rightarrow> ([], Some AttributeError))
      | _ \<Rightarrow> ([], None))"

subsection \<open>The lead locator\<close>

text \<open>
  Lines 115 to 149 of \<^verbatim>\<open>get_leads\<close>: the \<^verbatim>\<open>if\<close>/\<^verbatim>\<open>elif\<close> chain that sets \<^verbatim>\<open>data_array\<close> or
  walks the run data, then the indexed array format on \<^verbatim>\<open>data_array\<close>.
\<close>

definition locate_leads :: "json \<Rightarrow> json \<Rightarrow> json \<Rightarrow> emitted" where
  "locate_leads started_at exec_id exec_data =
     (let (data_array, found) =
            (case exec_data of
               JArr xs \<Rightarrow> (Some exec_data, ([], None))
             | JObj d \<Rightarrow>
                 (case map_of d ''data'' of
                    Some v \<Rightarrow> (Some v, ([], None))
                  | None \<Rightarrow>
                      (case map_of d ''resultData'' of
                         Some result \<Rightarrow> (None, branch_b started_at exec_id result)
                       | None \<Rightarrow> (None, ([], None))))
             | _ \<Rightarrow> (None, ([], None)))
      in case found of
           (ls, Some e) \<Rightarrow> (ls, Some e)
         | (ls, None) \<Rightarrow>
             (case branch_a started_at exec_id data_array of (ls', r) \<Rightarrow> (ls @ ls', r)))"

subsection \<open>Rows of the store\<close>

text \<open>
  A row of the query: the execution's id, its two timestamps (text columns), its status
  and the payload column, which holds bytes, text, or something else (\<^verbatim>\<open>NULL\<close>, a number).
\<close>

datatype db_value = DbBytes string | DbText string | DbOther

record row =
  col_id :: int
  col_started_at :: string
  col_stopped_at :: string
  col_status :: string
  col_data :: db_value

text \<open>
  The library functions the script calls on a payload are parameters of the model; each
  returns \<open>None\<close> where the Python function raises.
\<close>

record codecs =
  zlib_decompress :: "string \<Rightarrow> string option"
  utf8_decode :: "string \<Rightarrow> string option"
  json_loads :: "string \<Rightarrow> json option"

definition parse_json :: "codecs \<Rightarrow> string \<Rightarrow> error + json" where
  "parse_json lib s = (case json_loads lib s of None \<Rightarrow> Inl JSONDecodeError | Some v \<Rightarrow> Inr v)"

text \<open>
  Lines 105 to 113: bytes are decompressed and decoded, or, when either step raises,
  decoded as they are; then the text is parsed.
\<close>

definition load_payload :: "codecs \<Rightarrow> db_value \<Rightarrow> error + json" where
  "load_payload lib data_blob =
     (case data_blob of
        DbBytes b \<Rightarrow>
          (case Option.bind (zlib_decompress lib b) (utf8_decode lib) of
             Some s \<Rightarrow> parse_json lib s
           | None \<Rightarrow>
               (case utf8_decode lib b of
                  None \<Rightarrow> Inl UnicodeDecodeError
                | Some s \<Rightarrow> parse_json lib s))
      | DbText s \<Rightarrow> parse_json lib s
      | DbOther \<Rightarrow> Inl TypeError)"

text \<open>
  The body of the loop over the rows (lines 101 to 153): the leads the row appended to
  \<^verbatim>\<open>all_leads\<close>, and the exception that the handler of line 151 swallowed, if any.
\<close>

definition row_leads :: "codecs \<Rightarrow> row \<Rightarrow> emitted" where
  "row_leads lib r =
     (case load_payload lib (col_data r) of
        Inl e \<Rightarrow> ([], Some e)
      | Inr exec_data \<Rightarrow> locate_leads (JStr (col_started_at r)) (JInt (col_id r)) exec_data)"

definition collect_leads :: "codecs \<Rightarrow> row list \<Rightarrow> dict list" where
  "collect_leads lib rows = concat (map (\<lambda>r. fst (row_leads lib r)) rows)"

subsection \<open>Deduplication\<close>

text \<open>
  \<^verbatim>\<open>link not in seen_links\<close> hashes the link (a list or a dict raises \<^verbatim>\<open>TypeError\<close>) and
  compares it with Python's equality, under which \<^verbatim>\<open>True\<close>, \<^verbatim>\<open>1\<close> and \<^verbatim>\<open>1.0\<close> are equal.
\<close>

fun hashable :: "json \<Rightarrow> bool" where
  "hashable (JArr xs) = False"
| "hashable (JObj d) = False"
| "hashable _ = True"

fun num_val :: "json \<Rightarrow> rat option" where
  "num_val (JBool b) = Some (if b then 1 else 0)"
| "num_val (JInt i) = Some (of_int i)"
| "num_val (JFloat r) = Some r"
| "num_val _ = None"

definition py_eq :: "json \<Rightarrow> json \<Rightarrow> bool" where
  "py_eq a b =
     (case (num_val a, num_val b) of
        (Some x, Some y) \<Rightarrow> x = y
      | (None, None) \<Rightarrow> a = b
      | _ \<Rightarrow> False)"

definition link_of :: "dict \<Rightarrow> json" where
  "link_of lead = dict_get lead ''link'' (JStr [])"

text \<open>Lines 160 to 167; \<open>seen_links\<close> is the set, as the list of the links added.\<close>

fun dedup_from :: "json list \<Rightarrow> dict list \<Rightarrow> error + dict list" where
  "dedup_from seen_links [] = Inr []"
| "dedup_from seen_links (lead # rest) =
     (let link = link_of lead
      in if truthy link then
           (if \<not> hashable link then Inl TypeError
            else if list_ex (py_eq link) seen_links then dedup_from seen_links rest
            else (case dedup_from (link # seen_links) rest of
                    Inl e \<Rightarrow> Inl e
                  | Inr unique_leads \<Rightarrow> Inr (lead # unique_leads)))
         else dedup_from seen_links rest)"

definition dedup_leads :: "dict list \<Rightarrow> error + dict list" where
  "dedup_leads all_leads = dedup_from [] all_leads"

subsection \<open>Deduplication, in the words of the specification\<close>




subsection \<open>Sorting\<close>

text \<open>
  Line 170: a stable sort on \<^verbatim>\<open>x.get('foundAt', '')\<close> with \<^verbatim>\<open>reverse=True\<close>, which keeps
  leads of equal keys in their original order: the list is reversed, sorted and
  reversed again. Strings compare by code point, lexicographically.

  The comparison is modelled for string keys (every lead of \<^verbatim>\<open>get_leads\<close> has the row's
  timestamp as its \<^verbatim>\<open>foundAt\<close>). With at most one lead nothing is compared. Python raises
  \<^verbatim>\<open>TypeError\<close> when it compares a string with a value of another type; the model
  answers \<open>TypeError\<close> for every list of two or more leads whose keys are not all
  strings, so for keys that are all numbers it says nothing about the script.
\<close>

definition found_at :: "dict \<Rightarrow> json" where
  "found_at lead = dict_get lead ''foundAt'' (JStr [])"

definition found_at_str :: "dict \<Rightarrow> string" where
  "found_at_str lead = (case found_at lead of JStr s \<Rightarrow> s | _ \<Rightarrow> [])"

definition string_keyed :: "dict \<Rightarrow> bool" where
  "string_keyed lead = (case found_at lead of JStr s \<Rightarrow> True | _ \<Rightarrow> False)"

definition sort_leads :: "dict list \<Rightarrow> error + dict list" where
  "sort_leads unique_leads =
     (if list_all string_keyed unique_leads then
        Inr (rev (sort_key found_at_str (rev unique_leads)))
      else if length unique_leads < 2 then Inr unique_leads
      else Inl TypeError)"

subsection \<open>Pagination\<close>

text \<open>
  \<^verbatim>\<open>xs[start:stop]\<close> for integers: a negative bound counts from the end, and both bounds
  are clamped to the list.
\<close>

definition slice_bound :: "int \<Rightarrow> nat \<Rightarrow> nat" where
  "slice_bound i n = (if i < 0 then nat (max 0 (int n + i)) else min (nat i) n)"

definition py_slice :: "'a list \<Rightarrow> int \<Rightarrow> int \<Rightarrow> 'a list" where
  "py_slice xs start stop =
     (let a = slice_bound start (length xs); b = slice_bound stop (length xs)
      in take (b - a) (drop a xs))"

definition paginate :: "dict list \<Rightarrow> int \<Rightarrow> int \<Rightarrow> dict list" where
  "paginate unique_leads limit offset = py_slice unique_leads offset (offset + limit)"

subsection \<open>Normalisation\<close>

text \<open>\<^verbatim>\<open>v.replace(old, new)\<close>: a method of strings only.\<close>

definition replace_in :: "json \<Rightarrow> string \<Rightarrow> string \<Rightarrow> error + json" where
  "replace_in v old new =
     (case v of JStr s \<Rightarrow> Inr (JStr (str_replace old new s)) | _ \<Rightarrow> Inl AttributeError)"

text \<open>Lines 179 to 192, the entries evaluated in the order of the dict display.\<close>

definition normalize_lead :: "dict \<Rightarrow> error + dict" where
  "normalize_lead lead =
     (case replace_in (dict_get lead ''subreddit'' (JStr [])) ''r/'' [] of
        Inl e \<Rightarrow> Inl e
      | Inr subreddit \<Rightarrow>
     (case replace_in (dict_get lead ''author'' (JStr [])) ''u/'' [] of
        Inl e \<Rightarrow> Inl e
      | Inr author \<Rightarrow>
     (case (if truthy (dict_get lead ''content'' JNull)
            then clean_html_content (dict_get lead ''content'' (JStr []))
            else Inr []) of
        Inl e \<Rightarrow> Inl e
      | Inr content \<Rightarrow>
          Inr [(''id'', dict_get lead ''executionId'' (JStr [])),
               (''title'', dict_get lead ''title'' (JStr ''Untitled'')),
               (''subreddit'', subreddit),
               (''author'', author),
               (''link'', dict_get lead ''link'' (JStr [])),
               (''content'', JStr (take 300 content)),
               (''priority'', dict_get lead ''priority'' (JStr ''Medium'')),
               (''score'', dict_get lead ''score'' (JInt 0)),
               (''keywords'',
                  dict_get lead ''highKeywords'' (dict_get lead ''keywords'' (JStr []))),
               (''location'', dict_get lead ''location'' (JStr [])),
               (''foundAt'', dict_get lead ''foundAt'' (JStr [])),
               (''pubDate'', dict_get lead ''pubDate'' (JStr []))])))"

fun map_checked :: "('a \<Rightarrow> error + 'b) \<Rightarrow> 'a list \<Rightarrow> error + 'b list" where
  "map_checked f [] = Inr []"
| "map_checked f (x # xs) =
     (case f x of
        Inl e \<Rightarrow> Inl e
      | Inr y \<Rightarrow> (case map_checked f xs of Inl e \<Rightarrow> Inl e | Inr ys \<Rightarrow> Inr (y # ys)))"

subsection \<open>The orchestrator\<close>

text \<open>Lines 172 to 200: the total, the slice, the normalised leads and the envelope.\<close>

definition respond :: "dict list \<Rightarrow> int \<Rightarrow> int \<Rightarrow> error + dict" where
  "respond unique_leads limit offset =
     (let total = length unique_leads;
          paginated = paginate unique_leads limit offset
      in case map_checked normalize_lead paginated of
           Inl e \<Rightarrow> Inl e
         | Inr normalized_leads \<Rightarrow>
             Inr [(''leads'', JArr (map JObj normalized_leads)),
                  (''total'', JInt (int total)),
                  (''limit'', JInt limit),
                  (''offset'', JInt offset)])"

text \<open>
  Lines 160 to 200, all that follows the \<^verbatim>\<open>try\<close> statement. Nothing catches an exception
  here: \<open>Inl\<close> is one that leaves \<^verbatim>\<open>get_leads\<close>.
\<close>

definition finish :: "dict list \<Rightarrow> int \<Rightarrow> int \<Rightarrow> error + dict" where
  "finish all_leads limit offset =
     (case dedup_leads all_leads of
        Inl e \<Rightarrow> Inl e
      | Inr unique_leads \<Rightarrow>
          (case sort_leads unique_leads of
             Inl e \<Rightarrow> Inl e
           | Inr sorted_leads \<Rightarrow> respond sorted_leads limit offset))"

definition error_envelope :: "string \<Rightarrow> dict" where
  "error_envelope msg = [(''error'', JStr msg), (''leads'', JArr []), (''total'', JInt 0)]"

text \<open>
  The store, as the script meets it in one call: what \<^verbatim>\<open>sqlite3.connect\<close> does (it raises
  with a message, or returns a connection) and what the query does on that connection
  (\<^verbatim>\<open>cursor\<close>, \<^verbatim>\<open>execute\<close> and \<^verbatim>\<open>fetchall\<close>: they raise with a message, or return the rows).
  \<^verbatim>\<open>conn.close()\<close> on a connection that this thread opened does not raise.

  \<^verbatim>\<open>get_leads\<close> returns the connections it opened and closed, in order, and its result:
  the envelope, or the exception that leaves it.
\<close>

record store =
  connect_result :: "string + unit"
  query_result :: "string + row list"

datatype store_event = Opened | Closed

definition get_leads ::
  "codecs \<Rightarrow> store \<Rightarrow> int \<Rightarrow> int \<Rightarrow> store_event list \<times> (error + dict)" where
  "get_leads lib db limit offset =
     (case connect_result db of
        Inl msg \<Rightarrow> ([], Inr (error_envelope msg))
      | Inr conn \<Rightarrow>
          (case query_result db of
             Inl msg \<Rightarrow> ([Opened], Inr (error_envelope msg))
           | Inr rows \<Rightarrow>
               ([Opened, Closed], finish (collect_leads lib rows) limit offset)))"

subsection \<open>Example data\<close>

text \<open>A table whose first entry refers to the second, which refers to nothing.\<close>

definition table0 :: "json list" where
  "table0 = [JStr ''1'', JObj [(''title'', JStr ''x''), (''n'', JStr ''7'')]]"

text \<open>
  A payload with both a \<^verbatim>\<open>data\<close> array (one lead in the indexed format) and
  \<^verbatim>\<open>resultData.runData\<close> (one lead in the run-data format).
\<close>

definition both_data :: json where
  "both_data =
     JArr [JObj [(''title'', JStr ''1''), (''subreddit'', JStr ''r/Mesa''), (''link'', JStr ''2'')],
           JStr ''Need a roofer'', JStr ''https://a'']"

definition both_result :: json where
  "both_result =
     JObj [(''runData'', JObj [(''Reddit'', JArr [JObj [(''data'', JObj [(''main'',
       JArr [JArr [JObj [(''json'',
         JObj [(''title'', JStr ''Plumber wanted''), (''link'', JStr ''https://b'')])]]])])]])])]"

definition both_payload :: json where
  "both_payload = JObj [(''data'', both_data), (''resultData'', both_result)]"

text \<open>
  A run-data payload whose item list holds a lead and then an item whose \<^verbatim>\<open>json\<close> field
  is a number.
\<close>

definition partial_payload :: json where
  "partial_payload =
     JObj [(''resultData'', JObj [(''runData'', JObj [(''Reddit'', JArr [JObj [(''data'',
       JObj [(''main'',
         JArr [JArr [JObj [(''json'',
                       JObj [(''title'', JStr ''Plumber wanted''), (''link'', JStr ''https://b'')])],
                     JObj [(''json'', JInt 5)]]])])]])])])]"

text \<open>Three leads with distinct links, found in January, March and February.\<close>

definition lead_jan :: dict where
  "lead_jan =
     [(''title'', JStr ''Roofer''), (''link'', JStr ''https://a''),
      (''foundAt'', JStr ''2024-01-01'')]"

definition lead_mar :: dict where
  "lead_mar =
     [(''title'', JStr ''Plumber''), (''link'', JStr ''https://b''),
      (''foundAt'', JStr ''2024-03-01'')]"

definition lead_feb :: dict where
  "lead_feb =
     [(''title'', JStr ''Painter''), (''link'', JStr ''https://c''),
      (''foundAt'', JStr ''2024-02-01'')]"


text \<open>Codecs for rows of plain text that no parser accepts.\<close>

definition plain_codecs :: codecs where
  "plain_codecs = \<lparr>zlib_decompress = \<lambda>b. None, utf8_decode = Some, json_loads = \<lambda>s. None\<rparr>"







section \<open>Properties\<close>

subsection \<open>The deindexer\<close>

lemma map_results_defined:
  "(\<And>x. x \<in> set xs \<Longrightarrow> f x \<noteq> None) \<Longrightarrow> map_results f xs \<noteq> None"
proof (induction xs)
  case Nil
  show ?case by simp
next
  case (Cons x xs)
  obtain r where r: "f x = Some r" using Cons.prems [of x] by auto
  obtain rs where rs: "map_results f xs = Some rs" using Cons by auto
  show ?case using r rs by (cases r) simp_all
qed

lemma map_results_values:
  "(\<And>x. x \<in> set xs \<Longrightarrow> \<exists>y. f x = Some (Inr y)) \<Longrightarrow> \<exists>ys. map_results f xs = Some (Inr ys)"
proof (induction xs)
  case Nil
  show ?case by simp
next
  case (Cons x xs)
  obtain y where y: "f x = Some (Inr y)" using Cons.prems [of x] by auto
  obtain ys where ys: "map_results f xs = Some (Inr ys)" using Cons by auto
  show ?case using y ys by simp
qed

lemma refs_bound: "j \<in> set (refs n v) \<Longrightarrow> j < n"
  by (induction n v rule: refs.induct) (auto split: if_splits)

text \<open>A call on a value ends as soon as the calls on the entries it refers to end.\<close>

lemma deref_value:
  "(\<And>j. j \<in> set (refs (length T) v) \<Longrightarrow> deref (T ! j) T \<noteq> None) \<Longrightarrow> deref v T \<noteq> None"
proof (induction v)
  case (JStr s)
  then show ?case
    by (subst deref.simps) (auto simp: py_int_def)
next
  case (JArr vs)
  have "map_results (\<lambda>v. deref v T) vs \<noteq> None"
  proof (rule map_results_defined)
    fix x assume x: "x \<in> set vs"
    show "deref x T \<noteq> None"
      using JArr.IH [OF x] JArr.prems x by auto
  qed
  then show ?case by (subst deref.simps) (auto simp: bind_eq_None_conv)
next
  case (JObj kvs)
  have "map_results (\<lambda>kv. Option.bind (deref (snd kv) T) (\<lambda>r. Some (map_sum id (Pair (fst kv)) r)))
          kvs \<noteq> None"
  proof (rule map_results_defined)
    fix kv assume kv: "kv \<in> set kvs"
    have snd: "snd kv \<in> Basic_BNFs.snds kv" by (cases kv) simp
    have "deref (snd kv) T \<noteq> None"
    proof (rule JObj.IH [OF kv snd])
      fix j assume "j \<in> set (refs (length T) (snd kv))"
      then show "deref (T ! j) T \<noteq> None" using JObj.prems kv by auto
    qed
    then show "Option.bind (deref (snd kv) T) (\<lambda>r. Some (map_sum id (Pair (fst kv)) r)) \<noteq> None"
      by (auto simp: bind_eq_None_conv)
  qed
  then show ?case by (subst deref.simps) (auto simp: bind_eq_None_conv)
qed (simp_all add: deref.simps)

text \<open>And it returns a value when, besides, none of its digit strings is too long.\<close>

lemma deref_value_returned:
  "short_indices v \<Longrightarrow>
   (\<And>j. j \<in> set (refs (length T) v) \<Longrightarrow> \<exists>r. deref (T ! j) T = Some (Inr r)) \<Longrightarrow>
   \<exists>r. deref v T = Some (Inr r)"
proof (induction v)
  case (JStr s)
  then show ?case
    by (subst deref.simps) (auto simp: py_int_def)
next
  case (JArr vs)
  have "\<exists>ys. map_results (\<lambda>v. deref v T) vs = Some (Inr ys)"
  proof (rule map_results_values)
    fix x assume x: "x \<in> set vs"
    have "short_indices x" using JArr.prems(1) x by (simp add: list_all_iff)
    then show "\<exists>y. deref x T = Some (Inr y)"
      using JArr.IH [OF x] JArr.prems(2) x by auto
  qed
  then show ?case by (subst deref.simps) auto
next
  case (JObj kvs)
  have "\<exists>ys. map_results
               (\<lambda>kv. Option.bind (deref (snd kv) T) (\<lambda>r. Some (map_sum id (Pair (fst kv)) r)))
               kvs = Some (Inr ys)"
  proof (rule map_results_values)
    fix kv assume kv: "kv \<in> set kvs"
    have snd: "snd kv \<in> Basic_BNFs.snds kv" by (cases kv) simp
    have s: "short_indices (snd kv)" using JObj.prems(1) kv by (simp add: list_all_iff)
    have "\<exists>r. deref (snd kv) T = Some (Inr r)"
    proof (rule JObj.IH [OF kv snd s])
      fix j assume "j \<in> set (refs (length T) (snd kv))"
      then show "\<exists>r. deref (T ! j) T = Some (Inr r)" using JObj.prems(2) kv by auto
    qed
    then show "\<exists>y. Option.bind (deref (snd kv) T) (\<lambda>r. Some (map_sum id (Pair (fst kv)) r)) =
                 Some (Inr y)"
      by auto
  qed
  then show ?case by (subst deref.simps) auto
qed (simp_all add: deref.simps)

lemma finite_ref_rel: "finite (ref_rel T)"
proof (rule finite_subset)
  show "ref_rel T \<subseteq> {..<length T} \<times> {..<length T}"
    by (auto simp: ref_rel_def dest: refs_bound)
qed simp

lemma deref_entry:
  assumes "wf (ref_rel T)"
  shows "i < length T \<Longrightarrow> deref (T ! i) T \<noteq> None"
  using assms
proof (induction i rule: wf_induct_rule)
  case (less i)
  show ?case
  proof (rule deref_value)
    fix j assume j: "j \<in> set (refs (length T) (T ! i))"
    then have "(j, i) \<in> ref_rel T" using less.prems by (simp add: ref_rel_def)
    moreover have "j < length T" using j by (rule refs_bound)
    ultimately show "deref (T ! j) T \<noteq> None" by (rule less.IH)
  qed
qed

lemma deref_entry_returned:
  assumes "wf (ref_rel T)" and "list_all short_indices T"
  shows "i < length T \<Longrightarrow> \<exists>r. deref (T ! i) T = Some (Inr r)"
  using assms(1)
proof (induction i rule: wf_induct_rule)
  case (less i)
  show ?case
  proof (rule deref_value_returned)
    show "short_indices (T ! i)" using assms(2) less.prems by (simp add: list_all_length)
  next
    fix j assume j: "j \<in> set (refs (length T) (T ! i))"
    then have "(j, i) \<in> ref_rel T" using less.prems by (simp add: ref_rel_def)
    moreover have "j < length T" using j by (rule refs_bound)
    ultimately show "\<exists>r. deref (T ! j) T = Some (Inr r)" by (rule less.IH)
  qed
qed






text \<open>
  Claim C10. When the table is acyclic (no chain of digit-string references leads from
  an entry back to itself), \<open>deref\<close> ends on every value: the recursion is
  well-founded, on the reference relation for the entries and on the structure of the
  value inside an entry. It ends with a value when no digit string of the value or of
  the table is too long for \<^verbatim>\<open>int\<close>.
\<close>

theorem deref_terminates:
  "acyclic_table T \<Longrightarrow>
     (\<exists>r. deref v T = Some r) \<and>
     (short_indices v \<and> list_all short_indices T \<longrightarrow> (\<exists>r. deref v T = Some (Inr r)))"
proof -
  assume "acyclic_table T"
  then have "acyclic (ref_rel T)" by (simp add: acyclic_table_def)
  then have wf: "wf (ref_rel T)" using finite_ref_rel by (rule finite_acyclic_wf [rotated])
  have "deref v T \<noteq> None"
  proof (rule deref_value)
    fix j assume "j \<in> set (refs (length T) v)"
    then have "j < length T" by (rule refs_bound)
    then show "deref (T ! j) T \<noteq> None" by (rule deref_entry [OF wf])
  qed
  moreover have "\<exists>r. deref v T = Some (Inr r)"
    if s: "short_indices v" "list_all short_indices T"
  proof (rule deref_value_returned [OF s(1)])
    fix j assume "j \<in> set (refs (length T) v)"
    then have "j < length T" by (rule refs_bound)
    then show "\<exists>r. deref (T ! j) T = Some (Inr r)" by (rule deref_entry_returned [OF wf s(2)])
  qed
  ultimately show ?thesis by auto
qed

lemma table0_acyclic: "acyclic_table table0"
  unfolding acyclic_table_def
proof (rule acyclicI_order [where f = id])
  fix j i assume "(j, i) \<in> ref_rel table0"
  then have i: "i < length table0" and j: "j \<in> set (refs (length table0) (table0 ! i))"
    by (simp_all add: ref_rel_def)
  have len: "length table0 = 2" by (simp add: table0_def)
  from i len have "i = 0 \<or> i = 1" by auto
  then show "id i < id j"
  proof
    assume "i = 0"
    moreover have "refs 2 (table0 ! 0) = [1]" by code_simp
    ultimately show ?thesis using j len by simp
  next
    assume "i = 1"
    moreover have "refs 2 (table0 ! 1) = []" by code_simp
    ultimately show ?thesis using j len by simp
  qed
qed

theorem deref_terminates_witness:
  "acyclic_table table0 \<and>
   short_indices (JArr [JStr ''0'', JStr ''1'', JStr ''2'']) \<and> list_all short_indices table0 \<and>
   (\<exists>r. deref (JArr [JStr ''0'', JStr ''1'', JStr ''2'']) table0 = Some (Inr r))"
proof -
  have s: "short_indices (JArr [JStr ''0'', JStr ''1'', JStr ''2''])"
    by (simp add: int_max_str_digits_def)
  have t: "list_all short_indices table0"
    by (simp add: table0_def int_max_str_digits_def)
  show ?thesis
    using s t table0_acyclic
      deref_terminates [OF table0_acyclic, of "JArr [JStr ''0'', JStr ''1'', JStr ''2'']"]
    by simp
qed

text \<open>
  The precondition is needed: on a table whose entry refers to itself the call does not
  return.
\<close>

lemma deref_self_reference: "deref (JStr ''0'') [JStr ''0''] = None"
proof -
  have d: "isdigit ''0''" and z: "py_int ''0'' = Inr 0" by code_simp+
  have "\<not> (v = JStr ''0'' \<and> T = [JStr ''0''])" if "deref v T = Some r" for v T r
    by (rule deref.raw_induct [where P = "\<lambda>v T r. \<not> (v = JStr ''0'' \<and> T = [JStr ''0''])", OF _ that])
       (use d z in \<open>fastforce split: if_splits\<close>)
  then show ?thesis by (cases "deref (JStr ''0'') [JStr ''0'']") auto
qed

subsection \<open>The text cleaner\<close>

text \<open>
  Claim C2, as the specification states it: cleaning
  \<^verbatim>\<open><p>Hello &amp; welcome [link] submitted by bob</p>\<close> yields \<^verbatim>\<open>Hello welcome\<close>. It does
  not: the cleaner removes the phrase \<^verbatim>\<open>submitted by\<close>, not the name that follows it.
\<close>

theorem clean_example_counterexample:
  "clean_html_content (JStr ''<p>Hello &amp; welcome [link] submitted by bob</p>'')
     \<noteq> Inr ''Hello welcome''"
  by code_simp

text \<open>
  Claim C2, amended: cleaning that string yields \<^verbatim>\<open>Hello welcome bob\<close> (the tags, the
  entity, \<^verbatim>\<open>[link]\<close>, \<^verbatim>\<open>submitted by\<close> and the extra white space are removed).
\<close>

theorem clean_example:
  "clean_html_content (JStr ''<p>Hello &amp; welcome [link] submitted by bob</p>'')
     = Inr ''Hello welcome bob''"
  by code_simp

subsection \<open>The lead locator\<close>

lemma branch_a_None: "branch_a started_at exec_id None = ([], None)"
  by (simp add: branch_a_def)

lemma emitted_split:
  "(case x of (ls, Some e) \<Rightarrow> (ls, Some e) | (ls, None) \<Rightarrow> (ls @ [], None)) = x"
  by (cases x) (auto split: option.splits)

text \<open>
  Claim C1, as the specification states it: on a payload that has both a \<^verbatim>\<open>data\<close> array
  and \<^verbatim>\<open>resultData.runData\<close>, the locator returns the candidates of both branches,
  concatenated. It does not: on \<open>both_payload\<close> each branch has one candidate, and the
  locator returns neither concatenation of the two.
\<close>

theorem locate_both_counterexample:
  "fst (locate_leads (JStr ''2024-01-01'') (JInt 7) both_payload) \<noteq>
     fst (branch_a (JStr ''2024-01-01'') (JInt 7) (Some both_data)) @
     fst (branch_b (JStr ''2024-01-01'') (JInt 7) both_result) \<and>
   fst (locate_leads (JStr ''2024-01-01'') (JInt 7) both_payload) \<noteq>
     fst (branch_b (JStr ''2024-01-01'') (JInt 7) both_result) @
     fst (branch_a (JStr ''2024-01-01'') (JInt 7) (Some both_data)) \<and>
   length (fst (branch_a (JStr ''2024-01-01'') (JInt 7) (Some both_data))) = 1 \<and>
   length (fst (branch_b (JStr ''2024-01-01'') (JInt 7) both_result)) = 1"
  by code_simp

text \<open>
  Claim C1, amended: the locator runs one branch. On an object with a \<^verbatim>\<open>data\<close> field it
  runs Branch A on that field and nothing else, whether or not \<^verbatim>\<open>resultData\<close> is there;
  on an object with no \<^verbatim>\<open>data\<close> field and a \<^verbatim>\<open>resultData\<close> field it runs Branch B and
  nothing else; on a top-level array it runs Branch A on the array.
\<close>

theorem locate_one_branch:
  "(map_of d ''data'' = Some v \<longrightarrow>
      locate_leads started_at exec_id (JObj d) = branch_a started_at exec_id (Some v)) \<and>
   (map_of d ''data'' = None \<and> map_of d ''resultData'' = Some result \<longrightarrow>
      locate_leads started_at exec_id (JObj d) = branch_b started_at exec_id result) \<and>
   locate_leads started_at exec_id (JArr xs) = branch_a started_at exec_id (Some (JArr xs))"
  by (auto simp: locate_leads_def branch_a_None emitted_split split: prod.splits option.splits)

theorem locate_one_branch_witness:
  "map_of [(''data'', both_data), (''resultData'', both_result)] ''data'' = Some both_data \<and>
   locate_leads (JStr ''2024-01-01'') (JInt 7) both_payload =
     branch_a (JStr ''2024-01-01'') (JInt 7) (Some both_data) \<and>
   map_of [(''resultData'', both_result)] ''data'' = None \<and>
   map_of [(''resultData'', both_result)] ''resultData'' = Some both_result \<and>
   locate_leads (JStr ''2024-01-01'') (JInt 7) (JObj [(''resultData'', both_result)]) =
     branch_b (JStr ''2024-01-01'') (JInt 7) both_result"
  using locate_one_branch [of "[(''data'', both_data), (''resultData'', both_result)]" both_data
          "JStr ''2024-01-01''" "JInt 7" both_result "[]"]
        locate_one_branch [of "[(''resultData'', both_result)]" both_data
          "JStr ''2024-01-01''" "JInt 7" both_result "[]"]
  by (simp add: both_payload_def)

subsection \<open>Rows that raise\<close>

text \<open>
  Claim C5 says that a row whose processing raises contributes no lead. The code breaks
  it in Branch B, which appends to \<^verbatim>\<open>all_leads\<close> as it walks: on \<open>partial_payload\<close> the
  first item is appended, the second raises \<^verbatim>\<open>TypeError\<close> (\<^verbatim>\<open>'title' in 5\<close>), the handler
  skips the rest of the row, and the lead already appended stays.
\<close>

theorem partial_leads_survive:
  "locate_leads (JStr ''2024-01-01'') (JInt 7) partial_payload =
     ([[(''title'', JStr ''Plumber wanted''), (''link'', JStr ''https://b''),
        (''foundAt'', JStr ''2024-01-01''), (''executionId'', JInt 7)]], Some TypeError) \<and>
   row_leads
     \<lparr>zlib_decompress = \<lambda>b. None, utf8_decode = Some, json_loads = \<lambda>s. Some partial_payload\<rparr>
     \<lparr>col_id = 7, col_started_at = ''2024-01-01'', col_stopped_at = ''2024-01-02'',
      col_status = ''success'', col_data = DbText ''{..}''\<rparr> =
     ([[(''title'', JStr ''Plumber wanted''), (''link'', JStr ''https://b''),
        (''foundAt'', JStr ''2024-01-01''), (''executionId'', JInt 7)]], Some TypeError)"
  by code_simp

text \<open>
  What does hold of a row that raises. A failure while the payload is loaded leaves no
  lead; Branch A appends only after the whole table is extracted, and tagging a
  deindexed mapping cannot raise, so a failure there leaves no lead either; and the
  leads of the other rows do not depend on the row.
\<close>

lemma load_failure_no_leads:
  "load_payload lib (col_data r) = Inl e \<Longrightarrow> row_leads lib r = ([], Some e)"
  by (simp add: row_leads_def)

lemma collect_leads_rows:
  "collect_leads lib (before @ r # after) =
     collect_leads lib before @ fst (row_leads lib r) @ collect_leads lib after"
  by (simp add: collect_leads_def)

lemma for_each_clean:
  "(\<And>x. x \<in> set xs \<Longrightarrow> snd (body x) = None) \<Longrightarrow> snd (for_each body xs) = None"
proof (induction xs)
  case Nil
  show ?case by simp
next
  case (Cons x xs)
  obtain ls1 where b: "body x = (ls1, None)" using Cons.prems [of x] by (cases "body x") auto
  have "snd (for_each body xs) = None" using Cons by simp
  then obtain ls2 where "for_each body xs = (ls2, None)" by (cases "for_each body xs") auto
  with b show ?case by simp
qed

lemma map_results_all:
  "map_results f xs = Some (Inr ys) \<Longrightarrow> y \<in> set ys \<Longrightarrow> \<exists>x \<in> set xs. f x = Some (Inr y)"
proof (induction xs arbitrary: ys)
  case Nil
  then show ?case by simp
next
  case (Cons x xs)
  from Cons.prems(1) obtain r where r: "f x = Some r"
    by (auto simp: bind_eq_Some_conv)
  with Cons.prems(1) obtain z where z: "r = Inr z"
    by (cases r) auto
  from Cons.prems(1) r z obtain rs where rs: "map_results f xs = Some rs"
    by (auto simp: bind_eq_Some_conv)
  with Cons.prems(1) r z obtain zs where zs: "rs = Inr zs" "ys = z # zs"
    by (cases rs) auto
  show ?case
  proof (cases "y = z")
    case True
    with r z show ?thesis by simp
  next
    case False
    with Cons.prems(2) zs have "y \<in> set zs" by simp
    with Cons.IH [of zs] rs zs show ?thesis by auto
  qed
qed

lemma deref_dict: "deref (JObj d) data = Some (Inr r) \<Longrightarrow> \<exists>d'. r = JObj d'"
proof -
  assume "deref (JObj d) data = Some (Inr r)"
  then have "\<exists>res :: error + dict. map_sum id JObj res = Inr r"
    by (subst (asm) deref.simps) (auto simp: bind_eq_Some_conv)
  then obtain res :: "error + dict" where "map_sum id JObj res = Inr r" ..
  then show ?thesis by (cases res) auto
qed

lemma extracted_are_dicts:
  assumes "extract_leads_from_execution data = Some (Inr leads)" and "lead \<in> set leads"
  shows "\<exists>d. lead = JObj d"
proof -
  have "map_results (\<lambda>item. deref item data) (filter looks_like_lead data) = Some (Inr leads)"
    using assms(1) by (simp add: extract_leads_from_execution_def)
  from map_results_all [OF this assms(2)]
  obtain item where i: "item \<in> set (filter looks_like_lead data)"
    "deref item data = Some (Inr lead)"
    by auto
  from i(1) have "looks_like_lead item" by simp
  then obtain d where "item = JObj d"
    by (cases item) (simp_all add: looks_like_lead_def)
  with i(2) show ?thesis by (auto dest: deref_dict)
qed

lemma emit_tagged_dict: "snd (emit_tagged started_at exec_id (JObj d)) = None"
  by (simp add: emit_tagged_def tag_lead_def set_item_def)

lemma branch_a_atomic:
  assumes "branch_a started_at exec_id data_array = (ls, Some e)"
  shows "ls = []"
proof (cases data_array)
  case None
  with assms show ?thesis by (simp add: branch_a_def)
next
  case (Some v)
  show ?thesis
  proof (cases v)
    case (JArr xs)
    show ?thesis
    proof (cases "xs = []")
      case True
      with assms Some JArr show ?thesis by (simp add: branch_a_def)
    next
      case False
      show ?thesis
      proof (cases "extract_leads_from_execution xs")
        case None
        with assms Some JArr False show ?thesis by (simp add: branch_a_def)
      next
        case extracted: (Some res)
        show ?thesis
        proof (cases res)
          case (Inl e')
          with assms Some JArr False extracted show ?thesis by (simp add: branch_a_def)
        next
          case (Inr leads)
          have ex: "extract_leads_from_execution xs = Some (Inr leads)"
            using extracted Inr by simp
          have "snd (for_each (emit_tagged started_at exec_id) leads) = None"
          proof (rule for_each_clean)
            fix lead assume "lead \<in> set leads"
            then obtain d where "lead = JObj d" using extracted_are_dicts [OF ex] by blast
            then show "snd (emit_tagged started_at exec_id lead) = None"
              by (simp add: emit_tagged_dict)
          qed
          moreover have "for_each (emit_tagged started_at exec_id) leads = (ls, Some e)"
            using assms Some JArr False ex by (simp add: branch_a_def)
          ultimately have "snd (ls, Some e) = None" by (simp only:)
          then show ?thesis by simp
        qed
      qed
    qed
  qed (use assms Some in \<open>simp_all add: branch_a_def\<close>)
qed

subsection \<open>The store\<close>

text \<open>
  Claim C3 says that a connection that was opened is closed on every exit path. The
  code closes it on the path that returns the leads only: when the query raises, the
  handler of line 157 returns the error envelope and \<^verbatim>\<open>conn.close()\<close> of line 155 is
  never reached.
\<close>

theorem query_failure_leaves_connection_open:
  "get_leads lib \<lparr>connect_result = Inr (), query_result = Inl msg\<rparr> limit offset =
     ([Opened], Inr (error_envelope msg))"
  by (simp add: get_leads_def)

lemma respond_no_error_key: "respond us limit offset = Inr env \<Longrightarrow> \<not> has_key env ''error''"
  by (auto simp: respond_def Let_def has_key_def split: sum.splits)

lemma finish_no_error_key:
  "finish all_leads limit offset = Inr env \<Longrightarrow> \<not> has_key env ''error''"
  by (auto simp: finish_def split: sum.splits dest: respond_no_error_key)

text \<open>
  Claim C4. When opening or querying the store raises, \<^verbatim>\<open>get_leads\<close> returns exactly
  \<^verbatim>\<open>{error: message, leads: [], total: 0}\<close>; and an envelope with an \<^verbatim>\<open>error\<close> field is
  returned in no other case.
\<close>

theorem error_envelope_iff_store_failure:
  "(connect_result db = Inl msg \<or> (connect_result db = Inr () \<and> query_result db = Inl msg) \<longrightarrow>
      snd (get_leads lib db limit offset) =
        Inr [(''error'', JStr msg), (''leads'', JArr []), (''total'', JInt 0)]) \<and>
   (snd (get_leads lib db limit offset) = Inr env \<and> has_key env ''error'' \<longrightarrow>
      (\<exists>m. (connect_result db = Inl m \<or> (connect_result db = Inr () \<and> query_result db = Inl m)) \<and>
           env = [(''error'', JStr m), (''leads'', JArr []), (''total'', JInt 0)]))"
  by (auto simp: get_leads_def error_envelope_def split: sum.splits dest: finish_no_error_key)

theorem error_envelope_iff_store_failure_witness:
  "snd (get_leads plain_codecs
          \<lparr>connect_result = Inl ''unable to open database file'', query_result = Inr []\<rparr> 50 0) =
     Inr [(''error'', JStr ''unable to open database file''), (''leads'', JArr []),
          (''total'', JInt 0)] \<and>
   has_key [(''error'', JStr ''unable to open database file''), (''leads'', JArr []),
            (''total'', JInt 0)] ''error'' \<and>
   snd (get_leads plain_codecs
          \<lparr>connect_result = Inr (), query_result = Inl ''no such table: execution_entity''\<rparr>
          50 0) =
     Inr [(''error'', JStr ''no such table: execution_entity''), (''leads'', JArr []),
          (''total'', JInt 0)]"
  using error_envelope_iff_store_failure
          [of "\<lparr>connect_result = Inl ''unable to open database file'', query_result = Inr []\<rparr>"
              "''unable to open database file''" plain_codecs 50 0]
        error_envelope_iff_store_failure
          [of "\<lparr>connect_result = Inr (), query_result = Inl ''no such table: execution_entity''\<rparr>"
              "''no such table: execution_entity''" plain_codecs 50 0]
  by (simp add: has_key_def)

subsection \<open>Pagination\<close>

lemma map_checked_length: "map_checked f xs = Inr ys \<Longrightarrow> length ys = length xs"
  by (induction xs arbitrary: ys) (auto split: sum.splits)

lemma map_checked_returns:
  "(\<And>x. x \<in> set xs \<Longrightarrow> \<exists>y. f x = Inr y) \<Longrightarrow> \<exists>ys. map_checked f xs = Inr ys"
proof (induction xs)
  case Nil
  show ?case by simp
next
  case (Cons x xs)
  obtain y where "f x = Inr y" using Cons.prems by auto
  moreover obtain ys where "map_checked f xs = Inr ys" using Cons by auto
  ultimately show ?case by simp
qed

lemma length_paginate:
  assumes "0 \<le> limit" and "0 \<le> offset"
  shows "int (length (paginate us limit offset)) = min limit (max 0 (int (length us) - offset))"
proof -
  define n where "n = length us"
  define a where "a = nat offset"
  define l where "l = nat limit"
  have sa: "slice_bound offset n = min a n"
    using assms by (simp add: slice_bound_def a_def)
  have sb: "slice_bound (offset + limit) n = min (a + l) n"
    using assms by (simp add: slice_bound_def nat_add_distrib a_def l_def)
  have "length (paginate us limit offset) = min (min (a + l) n - min a n) (n - min a n)"
    unfolding paginate_def py_slice_def Let_def n_def [symmetric] sa sb
    by (simp add: n_def min.commute)
  also have "\<dots> = min l (n - a)" by arith
  finally have "length (paginate us limit offset) = min l (n - a)" .
  moreover have "int l = limit" "int a = offset" using assms by (simp_all add: l_def a_def)
  ultimately show ?thesis unfolding n_def [symmetric] by linarith
qed

text \<open>
  Claim C7. For a deduplicated, sorted collection of \<open>N\<close> leads and non-negative
  \<open>limit\<close> and \<open>offset\<close>, the envelope that is returned has \<open>min limit (max 0 (N - offset))\<close>
  leads (none when the offset is out of range) and \<open>total = N\<close>; and it is returned
  whenever every lead of the slice can be normalised.
\<close>

theorem pagination_size:
  assumes "0 \<le> limit" and "0 \<le> offset"
  shows "(respond us limit offset = Inr env \<longrightarrow>
           (\<exists>ns. env = [(''leads'', JArr ns), (''total'', JInt (int (length us))),
                        (''limit'', JInt limit), (''offset'', JInt offset)] \<and>
                 int (length ns) = min limit (max 0 (int (length us) - offset)))) \<and>
         ((\<forall>l \<in> set (paginate us limit offset). \<exists>n. normalize_lead l = Inr n) \<longrightarrow>
           (\<exists>env'. respond us limit offset = Inr env'))"
proof (intro conjI impI)
  assume r: "respond us limit offset = Inr env"
  then obtain ns where ns: "map_checked normalize_lead (paginate us limit offset) = Inr ns"
    and env: "env = [(''leads'', JArr (map JObj ns)), (''total'', JInt (int (length us))),
                     (''limit'', JInt limit), (''offset'', JInt offset)]"
    by (auto simp: respond_def Let_def split: sum.splits)
  have "int (length (map JObj ns)) = min limit (max 0 (int (length us) - offset))"
    using map_checked_length [OF ns] length_paginate [OF assms, of us] by simp
  with env show "\<exists>ns. env = [(''leads'', JArr ns), (''total'', JInt (int (length us))),
                        (''limit'', JInt limit), (''offset'', JInt offset)] \<and>
                 int (length ns) = min limit (max 0 (int (length us) - offset))"
    by blast
next
  assume "\<forall>l \<in> set (paginate us limit offset). \<exists>n. normalize_lead l = Inr n"
  then obtain ns where "map_checked normalize_lead (paginate us limit offset) = Inr ns"
    using map_checked_returns [of "paginate us limit offset" normalize_lead] by auto
  then show "\<exists>env'. respond us limit offset = Inr env'"
    by (simp add: respond_def Let_def)
qed

lemma normalize_examples:
  "\<exists>n. normalize_lead lead_jan = Inr n"
  "\<exists>n. normalize_lead lead_feb = Inr n"
  "\<exists>n. normalize_lead lead_mar = Inr n"
  by (simp_all add: normalize_lead_def replace_in_def dict_get_def
        lead_jan_def lead_feb_def lead_mar_def)

theorem pagination_size_witness:
  "(0::int) \<le> 2 \<and> (0::int) \<le> 2 \<and>
   (\<exists>env ns. respond [lead_mar, lead_feb, lead_jan] 2 2 = Inr env \<and>
      env = [(''leads'', JArr ns), (''total'', JInt 3), (''limit'', JInt 2), (''offset'', JInt 2)] \<and>
      length ns = 1) \<and>
   (0::int) \<le> 5 \<and>
   respond [lead_mar, lead_feb, lead_jan] 2 5 =
     Inr [(''leads'', JArr []), (''total'', JInt 3), (''limit'', JInt 2), (''offset'', JInt 5)]"
proof -
  have p: "paginate [lead_mar, lead_feb, lead_jan] 2 2 = [lead_jan]"
    by (simp add: paginate_def py_slice_def slice_bound_def)
  have "\<forall>l \<in> set (paginate [lead_mar, lead_feb, lead_jan] 2 2). \<exists>n. normalize_lead l = Inr n"
    using normalize_examples by (simp add: p)
  then obtain env where env: "respond [lead_mar, lead_feb, lead_jan] 2 2 = Inr env"
    using pagination_size [of 2 2 "[lead_mar, lead_feb, lead_jan]"] by auto
  have q: "paginate [lead_mar, lead_feb, lead_jan] 2 5 = []"
    by (simp add: paginate_def py_slice_def slice_bound_def)
  then obtain env' where env': "respond [lead_mar, lead_feb, lead_jan] 2 5 = Inr env'"
    using pagination_size [of 2 5 "[lead_mar, lead_feb, lead_jan]"] by auto
  show ?thesis
    using env env'
      pagination_size [of 2 2 "[lead_mar, lead_feb, lead_jan]" env]
      pagination_size [of 2 5 "[lead_mar, lead_feb, lead_jan]" env']
    by auto
qed

subsection \<open>Sorting\<close>

lemma sort_leads_strings:
  assumes "list_all string_keyed leads"
  shows "sort_leads leads = Inr (rev (sort_key found_at_str (rev leads)))"
  using assms by (simp add: sort_leads_def)

lemma sorted_desc:
  "sorted_wrt (\<lambda>a b. found_at_str b \<le> found_at_str a) (rev (sort_key found_at_str xs))"
proof -
  have "sorted (map found_at_str (sort_key found_at_str xs))" by (rule sorted_sort_key)
  then have "sorted_wrt (\<lambda>a b. found_at_str a \<le> found_at_str b) (sort_key found_at_str xs)"
    by (simp add: sorted_map)
  then show ?thesis by (simp add: sorted_wrt_rev)
qed

lemma stable_desc:
  "filter (\<lambda>l. found_at_str l = k) (rev (sort_key found_at_str (rev xs))) =
     filter (\<lambda>l. found_at_str l = k) xs"
  by (simp add: rev_filter [symmetric] sort_key_stable)

lemma missing_found_at:
  "\<not> has_key lead ''foundAt'' \<Longrightarrow> string_keyed lead \<and> found_at_str lead = []"
  by (simp add: has_key_def string_keyed_def found_at_str_def found_at_def dict_get_def)














text \<open>
  Claim C8. The deduplicated leads are put in descending order of \<^verbatim>\<open>foundAt\<close>, compared
  as strings, before the slice is taken; the order is a stable rearrangement of the
  list; a lead with no \<^verbatim>\<open>foundAt\<close> is compared as the empty string, the least string,
  so only leads whose key is empty too come after it. Leads found on \<^verbatim>\<open>2024-01-01\<close>,
  \<^verbatim>\<open>2024-03-01\<close> and \<^verbatim>\<open>2024-02-01\<close> come out in the order March, February, January.
\<close>

theorem sort_by_found_at:
  "(list_all string_keyed leads \<longrightarrow>
      (\<exists>rs. sort_leads leads = Inr rs \<and> mset rs = mset leads \<and>
            sorted_wrt (\<lambda>a b. found_at_str b \<le> found_at_str a) rs \<and>
            (\<forall>k. filter (\<lambda>l. found_at_str l = k) rs = filter (\<lambda>l. found_at_str l = k) leads) \<and>
            (\<forall>i j. i < j \<and> j < length rs \<and> \<not> has_key (rs ! i) ''foundAt'' \<longrightarrow>
                   found_at_str (rs ! j) = []))) \<and>
   (\<not> has_key lead ''foundAt'' \<longrightarrow>
      string_keyed lead \<and> found_at_str lead = [] \<and> (\<forall>l. found_at_str lead \<le> found_at_str l)) \<and>
   sort_leads [lead_jan, lead_mar, lead_feb] = Inr [lead_mar, lead_feb, lead_jan] \<and>
   finish [lead_jan, lead_mar, lead_feb] limit offset =
     respond [lead_mar, lead_feb, lead_jan] limit offset"
proof (intro conjI impI)
  assume keyed: "list_all string_keyed leads"
  define rs where "rs = rev (sort_key found_at_str (rev leads))"
  have 1: "sort_leads leads = Inr rs" using keyed by (simp add: sort_leads_strings rs_def)
  have 2: "mset rs = mset leads" by (simp add: rs_def)
  have 3: "sorted_wrt (\<lambda>a b. found_at_str b \<le> found_at_str a) rs"
    unfolding rs_def by (rule sorted_desc)
  have 4: "\<forall>k. filter (\<lambda>l. found_at_str l = k) rs = filter (\<lambda>l. found_at_str l = k) leads"
    unfolding rs_def by (simp add: stable_desc)
  have 5: "\<forall>i j. i < j \<and> j < length rs \<and> \<not> has_key (rs ! i) ''foundAt'' \<longrightarrow>
             found_at_str (rs ! j) = []"
  proof (intro allI impI)
    fix i j assume a: "i < j \<and> j < length rs \<and> \<not> has_key (rs ! i) ''foundAt''"
    then have "found_at_str (rs ! j) \<le> found_at_str (rs ! i)"
      using 3 by (simp add: sorted_wrt_iff_nth_less)
    moreover have "found_at_str (rs ! i) = []" using a missing_found_at by blast
    ultimately show "found_at_str (rs ! j) = []" by simp
  qed
  from 1 2 3 4 5
  show "\<exists>rs. sort_leads leads = Inr rs \<and> mset rs = mset leads \<and>
            sorted_wrt (\<lambda>a b. found_at_str b \<le> found_at_str a) rs \<and>
            (\<forall>k. filter (\<lambda>l. found_at_str l = k) rs = filter (\<lambda>l. found_at_str l = k) leads) \<and>
            (\<forall>i j. i < j \<and> j < length rs \<and> \<not> has_key (rs ! i) ''foundAt'' \<longrightarrow>
                   found_at_str (rs ! j) = [])"
    by blast
next
  assume "\<not> has_key lead ''foundAt''"
  then show "string_keyed lead" "found_at_str lead = []" "\<forall>l. found_at_str lead \<le> found_at_str l"
    using missing_found_at by auto
next
  show s: "sort_leads [lead_jan, lead_mar, lead_feb] = Inr [lead_mar, lead_feb, lead_jan]"
    by code_simp
  have d: "dedup_leads [lead_jan, lead_mar, lead_feb] = Inr [lead_jan, lead_mar, lead_feb]"
    by code_simp
  show "finish [lead_jan, lead_mar, lead_feb] limit offset =
          respond [lead_mar, lead_feb, lead_jan] limit offset"
    by (simp add: finish_def s d)
qed

theorem sort_by_found_at_witness:
  "list_all string_keyed [lead_jan, [(''link'', JStr ''https://d'')], lead_mar] \<and>
   \<not> has_key [(''link'', JStr ''https://d'')] ''foundAt'' \<and>
   sort_leads [lead_jan, [(''link'', JStr ''https://d'')], lead_mar] =
     Inr [lead_mar, lead_jan, [(''link'', JStr ''https://d'')]] \<and>
   found_at_str [(''link'', JStr ''https://d'')] = []"
proof -
  have k: "list_all string_keyed [lead_jan, [(''link'', JStr ''https://d'')], lead_mar]"
    by code_simp
  have m: "\<not> has_key [(''link'', JStr ''https://d'')] ''foundAt''" by code_simp
  have s: "sort_leads [lead_jan, [(''link'', JStr ''https://d'')], lead_mar] =
             Inr [lead_mar, lead_jan, [(''link'', JStr ''https://d'')]]"
    by code_simp
  show ?thesis
    using k m s
      sort_by_found_at [of "[lead_jan, [(''link'', JStr ''https://d'')], lead_mar]"
                          "[(''link'', JStr ''https://d'')]" 50 0]
    by simp
qed

subsection \<open>Deduplication\<close>













end
